theory Spec2Isabelle
  imports Main "HOL-Library.AList"
begin

section \<open>The language redirect middleware of lang_redirect.go\<close>

text \<open>
  A Go string is a sequence of bytes, and \<open>len\<close> counts bytes: it is modelled as a
  \<open>string\<close>, a list of 8-bit characters. The handler mutates the request it is given
  and ends either by calling the next handler or by returning; the model passes the
  request and the response writer explicitly and returns which of the two happened.
\<close>

subsection \<open>The functions of package strings that the plugin calls\<close>

text \<open>
  \<^verbatim>\<open>strings.Split(s, sep)\<close> for a separator of one byte: the pieces between the
  separators, in order; a string without separator (the empty string too) gives one piece.
\<close>

fun Split :: "string \<Rightarrow> char \<Rightarrow> string list" where
  "Split [] sep = [[]]"
| "Split (c # cs) sep =
     (if c = sep then [] # Split cs sep
      else (case Split cs sep of [] \<Rightarrow> [[c]] | x # xs \<Rightarrow> (c # x) # xs))"

text \<open>
  \<^verbatim>\<open>strings.SplitN(s, sep, 2)\<close> for a separator of one byte: the text before the first
  separator and the text after it, or the string alone when it has no separator.
\<close>

definition SplitN2 :: "string \<Rightarrow> char \<Rightarrow> string list" where
  "SplitN2 s sep =
     (if sep \<in> set s
      then [takeWhile (\<lambda>c. c \<noteq> sep) s, tl (dropWhile (\<lambda>c. c \<noteq> sep) s)]
      else [s])"

text \<open>
  \<^verbatim>\<open>strings.TrimSpace\<close> removes the leading and the trailing white space of a string
  read as UTF-8, white space being the runes of \<^verbatim>\<open>unicode.IsSpace\<close>: the six ASCII
  ones (tab, line feed, vertical tab, form feed, carriage return, space), U+0085, U+00A0,
  U+1680, U+2000 to U+200A, U+2028, U+2029, U+202F, U+205F and U+3000. A rune is decoded
  as one of them exactly where its UTF-8 encoding stands, so the model strips these byte
  sequences from the front, then from the back.
\<close>

definition spaceRunes :: "string list" where
  "spaceRunes =
     [[CHR 0x09], [CHR 0x0A], [CHR 0x0B], [CHR 0x0C], [CHR 0x0D], [CHR 0x20],
      [CHR 0xC2, CHR 0x85], [CHR 0xC2, CHR 0xA0],
      [CHR 0xE1, CHR 0x9A, CHR 0x80],
      [CHR 0xE2, CHR 0x80, CHR 0x80], [CHR 0xE2, CHR 0x80, CHR 0x81],
      [CHR 0xE2, CHR 0x80, CHR 0x82], [CHR 0xE2, CHR 0x80, CHR 0x83],
      [CHR 0xE2, CHR 0x80, CHR 0x84], [CHR 0xE2, CHR 0x80, CHR 0x85],
      [CHR 0xE2, CHR 0x80, CHR 0x86], [CHR 0xE2, CHR 0x80, CHR 0x87],
      [CHR 0xE2, CHR 0x80, CHR 0x88], [CHR 0xE2, CHR 0x80, CHR 0x89],
      [CHR 0xE2, CHR 0x80, CHR 0x8A],
      [CHR 0xE2, CHR 0x80, CHR 0xA8], [CHR 0xE2, CHR 0x80, CHR 0xA9],
      [CHR 0xE2, CHR 0x80, CHR 0xAF],
      [CHR 0xE2, CHR 0x81, CHR 0x9F],
      [CHR 0xE3, CHR 0x80, CHR 0x80]]"

definition leadingSpace :: "string \<Rightarrow> string option" where
  "leadingSpace s = find (\<lambda>w. take (length w) s = w) spaceRunes"

definition trailingSpace :: "string \<Rightarrow> string option" where
  "trailingSpace s = find (\<lambda>w. drop (length s - length w) s = w) spaceRunes"

lemma spaceRunes_nonempty: "w \<in> set spaceRunes \<Longrightarrow> w \<noteq> []"
  by (auto simp: spaceRunes_def)

lemma find_Some_holds: "find P xs = Some x \<Longrightarrow> x \<in> set xs \<and> P x"
  by (induction xs) (auto split: if_splits)

lemma leadingSpace_Some:
  assumes "leadingSpace s = Some w"
  shows "w \<noteq> [] \<and> take (length w) s = w"
proof -
  from assms have "w \<in> set spaceRunes \<and> take (length w) s = w"
    unfolding leadingSpace_def by (rule find_Some_holds)
  then show ?thesis using spaceRunes_nonempty by blast
qed

lemma trailingSpace_Some:
  assumes "trailingSpace s = Some w"
  shows "w \<noteq> [] \<and> drop (length s - length w) s = w"
proof -
  from assms have "w \<in> set spaceRunes \<and> drop (length s - length w) s = w"
    unfolding trailingSpace_def by (rule find_Some_holds)
  then show ?thesis using spaceRunes_nonempty by blast
qed

lemma leadingSpace_shorter:
  assumes "leadingSpace s = Some w"
  shows "length (drop (length w) s) < length s"
proof -
  from assms have w: "w \<noteq> []" and t: "take (length w) s = w"
    using leadingSpace_Some by blast+
  from t have "length w \<le> length s"
    by (metis length_take min.cobounded1)
  moreover from w have "0 < length w" by simp
  ultimately show ?thesis unfolding length_drop by arith
qed

lemma trailingSpace_shorter:
  assumes "trailingSpace s = Some w"
  shows "length (take (length s - length w) s) < length s"
proof -
  from assms have w: "w \<noteq> []" and d: "drop (length s - length w) s = w"
    using trailingSpace_Some by blast+
  from w d have "s \<noteq> []" by auto
  then have "0 < length s" by simp
  moreover from w have "0 < length w" by simp
  ultimately show ?thesis unfolding length_take by arith
qed

function TrimLeft :: "string \<Rightarrow> string" where
  "TrimLeft s =
     (case leadingSpace s of None \<Rightarrow> s | Some w \<Rightarrow> TrimLeft (drop (length w) s))"
  by pat_completeness auto
termination
proof (relation "measure length")
  show "wf (measure length)" by simp
next
  fix s w
  assume "leadingSpace s = Some w"
  then show "(drop (length w) s, s) \<in> measure length"
    unfolding in_measure by (rule leadingSpace_shorter)
qed

function TrimRight :: "string \<Rightarrow> string" where
  "TrimRight s =
     (case trailingSpace s of None \<Rightarrow> s
      | Some w \<Rightarrow> TrimRight (take (length s - length w) s))"
  by pat_completeness auto
termination
proof (relation "measure length")
  show "wf (measure length)" by simp
next
  fix s w
  assume "trailingSpace s = Some w"
  then show "(take (length s - length w) s, s) \<in> measure length"
    unfolding in_measure by (rule trailingSpace_shorter)
qed

declare TrimLeft.simps [simp del] TrimRight.simps [simp del]

definition TrimSpace :: "string \<Rightarrow> string" where
  "TrimSpace s = TrimRight (TrimLeft s)"

subsection \<open>Configuration and construction\<close>

definition StrategyHeader :: string where "StrategyHeader = ''header''"
definition StrategyPath :: string where "StrategyPath = ''path''"
definition StrategyQuery :: string where "StrategyQuery = ''query''"

record Config =
  Languages :: "string list"
  DefaultLanguage :: string
  DefaultLanguageHandling :: bool
  LanguageStrategy :: string
  LanguageParam :: string
  RedirectAfterHandling :: bool

definition CreateConfig :: Config where
  "CreateConfig =
     \<lparr>Languages = [], DefaultLanguage = '''', DefaultLanguageHandling = False,
      LanguageStrategy = ''header'', LanguageParam = ''lang'',
      RedirectAfterHandling = False\<rparr>"

text \<open>
  The plugin: the next handler of the chain (of a type \<open>'h\<close> left open) and the
  configuration.
\<close>

record 'h LangRedirect =
  nextHandler :: 'h
  config :: Config

text \<open>The errors that \<^verbatim>\<open>fmt.Errorf\<close> builds in \<^verbatim>\<open>New\<close> and \<^verbatim>\<open>getStrategy\<close>.\<close>

datatype Error =
  LanguagesRequired
| DefaultLanguageRequired
| LanguageParamRequired
| InvalidLanguageStrategy string

text \<open>
  \<^verbatim>\<open>New(ctx, next, config, name)\<close>; the context and the name are not used by the code.
\<close>

definition New :: "'h \<Rightarrow> Config \<Rightarrow> Error + 'h LangRedirect" where
  "New nxt cfg =
     (if length (Languages cfg) = 0 then Inl LanguagesRequired
      else if DefaultLanguage cfg = '''' then Inl DefaultLanguageRequired
      else if LanguageStrategy cfg = StrategyQuery \<and> LanguageParam cfg = ''''
        then Inl LanguageParamRequired
      else Inr \<lparr>nextHandler = nxt, config = cfg\<rparr>)"

subsection \<open>Parsing the header and choosing the language\<close>

text \<open>
  The loop of \<^verbatim>\<open>parseAcceptLanguage\<close> appends one language for each part, in order.
  \<^verbatim>\<open>SplitN\<close> with the limit 2 returns one or two pieces, so its element 0 exists.
\<close>

definition parseAcceptLanguage :: "string \<Rightarrow> string list" where
  "parseAcceptLanguage acceptLanguage =
     map (\<lambda>part. TrimSpace (hd (SplitN2 part CHR '';'')))
       (Split acceptLanguage CHR '','')"

text \<open>
  The inner loop of \<^verbatim>\<open>getPreferredLanguage\<close>: whether some supported language equals
  the candidate. The outer loop returns the first candidate for which it does.
\<close>

fun supportedLoop :: "string \<Rightarrow> string list \<Rightarrow> bool" where
  "supportedLoop lang [] = False"
| "supportedLoop lang (supportedLang # rest) =
     (if lang = supportedLang then True else supportedLoop lang rest)"

fun languagesLoop :: "'h LangRedirect \<Rightarrow> string list \<Rightarrow> string" where
  "languagesLoop g [] = DefaultLanguage (config g)"
| "languagesLoop g (lang # rest) =
     (if supportedLoop lang (Languages (config g)) then lang else languagesLoop g rest)"

definition getPreferredLanguage :: "'h LangRedirect \<Rightarrow> string \<Rightarrow> string" where
  "getPreferredLanguage g acceptLanguage =
     languagesLoop g (parseAcceptLanguage acceptLanguage)"

subsection \<open>Requests and response writers\<close>

text \<open>
  \<^verbatim>\<open>http.Header\<close> and \<^verbatim>\<open>url.Values\<close> are maps from a key to a list of values,
  kept here as association lists.
  \<open>Get\<close> returns the first value of the key, or the empty string; \<open>Set\<close> replaces the
  values of the key by the one given. The key \<^verbatim>\<open>Accept-Language\<close>, the only one the
  plugin passes to a header, is in canonical form already.
\<close>

type_synonym Values = "(string \<times> string list) list"

definition Get :: "Values \<Rightarrow> string \<Rightarrow> string" where
  "Get h key =
     (case map_of h key of None \<Rightarrow> '''' | Some [] \<Rightarrow> '''' | Some (v # _) \<Rightarrow> v)"

definition Set_value :: "Values \<Rightarrow> string \<Rightarrow> string \<Rightarrow> Values" where
  "Set_value h key v = AList.update key [v] h"

record URL =
  Scheme :: string
  Host :: string
  Path :: string
  RawQuery :: string
  Fragment :: string

record Request =
  Method :: string
  URL :: URL
  Header :: Values

text \<open>
  A response writer is modelled by the calls of package net/http made on it, in order:
  \<^verbatim>\<open>http.Error(w, msg, code)\<close> and \<^verbatim>\<open>http.Redirect(w, r, url.String(), code)\<close>, the
  latter recorded with the URL whose string it is given.
\<close>

datatype ResponseCall = HttpError string nat | HttpRedirect URL nat

type_synonym ResponseWriter = "ResponseCall list"

definition StatusFound :: nat where "StatusFound = 302"
definition StatusInternalServerError :: nat where "StatusInternalServerError = 500"

definition http_Error :: "ResponseWriter \<Rightarrow> string \<Rightarrow> nat \<Rightarrow> ResponseWriter" where
  "http_Error w msg code = w @ [HttpError msg code]"

definition http_Redirect :: "ResponseWriter \<Rightarrow> URL \<Rightarrow> nat \<Rightarrow> ResponseWriter" where
  "http_Redirect w u code = w @ [HttpRedirect u code]"

text \<open>
  The two functions of package net/url that the query strategy calls,
  \<^verbatim>\<open>url.ParseQuery\<close> (behind \<^verbatim>\<open>URL.Query\<close>) and \<^verbatim>\<open>Values.Encode\<close>, are parameters
  of the model.
\<close>

record NetURL =
  ParseQuery :: "string \<Rightarrow> Values"
  Encode :: "Values \<Rightarrow> string"

subsection \<open>The three strategies\<close>

datatype Strategy = HeaderStrategy | PathStrategy | QueryStrategy (languageParam: string)

definition getStrategy :: "'h LangRedirect \<Rightarrow> Error + Strategy" where
  "getStrategy g =
     (if LanguageStrategy (config g) = StrategyHeader then Inr HeaderStrategy
      else if LanguageStrategy (config g) = StrategyPath then Inr PathStrategy
      else if LanguageStrategy (config g) = StrategyQuery
        then Inr (QueryStrategy (LanguageParam (config g)))
      else Inl (InvalidLanguageStrategy (LanguageStrategy (config g))))"

definition HeaderStrategy_GetLanguage :: "Request \<Rightarrow> string" where
  "HeaderStrategy_GetLanguage r = Get (Header r) ''Accept-Language''"

definition HeaderStrategy_SetLanguage ::
  "ResponseWriter \<Rightarrow> Request \<Rightarrow> string \<Rightarrow> ResponseWriter \<times> Request" where
  "HeaderStrategy_SetLanguage w r language =
     (w, r\<lparr>Header := Set_value (Header r) ''Accept-Language'' language\<rparr>)"

definition PathStrategy_GetLanguage :: "Request \<Rightarrow> string" where
  "PathStrategy_GetLanguage r =
     (let segments = Split (Path (URL r)) CHR ''/'' in
      if length segments > 1 \<and> length (segments ! 1) = 2 then segments ! 1 else '''')"

definition PathStrategy_SetLanguage ::
  "ResponseWriter \<Rightarrow> Request \<Rightarrow> string \<Rightarrow> ResponseWriter \<times> Request" where
  "PathStrategy_SetLanguage w r language =
     (if Path (URL r) = ''/''
      then (w, r\<lparr>URL := (URL r)\<lparr>Path := ''/'' @ language\<rparr>\<rparr>)
      else (w, r\<lparr>URL := (URL r)\<lparr>Path := ''/'' @ language @ Path (URL r)\<rparr>\<rparr>))"

definition QueryStrategy_GetLanguage :: "NetURL \<Rightarrow> string \<Rightarrow> Request \<Rightarrow> string" where
  "QueryStrategy_GetLanguage net param r =
     (let query = ParseQuery net (RawQuery (URL r)) in Get query param)"

definition QueryStrategy_SetLanguage ::
  "NetURL \<Rightarrow> string \<Rightarrow> ResponseWriter \<Rightarrow> Request \<Rightarrow> string \<Rightarrow> ResponseWriter \<times> Request" where
  "QueryStrategy_SetLanguage net param w r language =
     (let query = ParseQuery net (RawQuery (URL r));
          query = Set_value query param language
      in (w, r\<lparr>URL := (URL r)\<lparr>RawQuery := Encode net query\<rparr>\<rparr>))"

text \<open>The calls through the interface \<^verbatim>\<open>Strategy\<close>.\<close>

fun GetLanguage :: "NetURL \<Rightarrow> Strategy \<Rightarrow> Request \<Rightarrow> string" where
  "GetLanguage net HeaderStrategy r = HeaderStrategy_GetLanguage r"
| "GetLanguage net PathStrategy r = PathStrategy_GetLanguage r"
| "GetLanguage net (QueryStrategy param) r = QueryStrategy_GetLanguage net param r"

fun SetLanguage ::
  "NetURL \<Rightarrow> Strategy \<Rightarrow> ResponseWriter \<Rightarrow> Request \<Rightarrow> string \<Rightarrow> ResponseWriter \<times> Request" where
  "SetLanguage net HeaderStrategy w r language = HeaderStrategy_SetLanguage w r language"
| "SetLanguage net PathStrategy w r language = PathStrategy_SetLanguage w r language"
| "SetLanguage net (QueryStrategy param) w r language =
     QueryStrategy_SetLanguage net param w r language"

subsection \<open>The handler\<close>

text \<open>
  \<^verbatim>\<open>ServeHTTP\<close> ends in one of two ways: it calls \<^verbatim>\<open>g.next.ServeHTTP(w, r)\<close> as its
  last action (\<open>Next\<close>, with the handler called and the writer and request passed), or it
  returns without calling it (\<open>Return\<close>, with the writer and the request as it leaves
  them).
\<close>

datatype 'h Outcome =
  Next 'h ResponseWriter Request
| Return ResponseWriter Request

definition ServeHTTP ::
  "NetURL \<Rightarrow> 'h LangRedirect \<Rightarrow> ResponseWriter \<Rightarrow> Request \<Rightarrow> 'h Outcome" where
  "ServeHTTP net g w r =
     (let languageByHeader = getPreferredLanguage g (Get (Header r) ''Accept-Language'') in
      if languageByHeader \<noteq> '''' \<and>
         (languageByHeader \<noteq> DefaultLanguage (config g) \<or> DefaultLanguageHandling (config g))
      then
        (case getStrategy g of
           Inl err \<Rightarrow>
             Return (http_Error w ''Internal Server Error'' StatusInternalServerError) r
         | Inr strategy \<Rightarrow>
             (let languageByRequest = GetLanguage net strategy r in
              if languageByRequest = '''' \<or> languageByRequest \<noteq> languageByHeader
              then
                (case SetLanguage net strategy w r languageByHeader of
                   (w', r') \<Rightarrow>
                     if RedirectAfterHandling (config g)
                     then Return (http_Redirect w' (URL r') StatusFound) r'
                     else Next (nextHandler g) w' r')
              else Next (nextHandler g) w r))
      else Next (nextHandler g) w r)"

subsection \<open>Notions of the specification\<close>

text \<open>The resolved language of a request: what the matcher returns for its header.\<close>

definition resolvedLanguage :: "'h LangRedirect \<Rightarrow> Request \<Rightarrow> string" where
  "resolvedLanguage g r = getPreferredLanguage g (Get (Header r) ''Accept-Language'')"

text \<open>
  The skip condition: the resolved language is empty, or it is the fallback while
  default-language handling is disabled.
\<close>

definition skipCondition :: "'h LangRedirect \<Rightarrow> Request \<Rightarrow> bool" where
  "skipCondition g r =
     (resolvedLanguage g r = '''' \<or>
      (resolvedLanguage g r = DefaultLanguage (config g) \<and>
       DefaultLanguageHandling (config g) = False))"

text \<open>
  The no-op condition: what the strategy reads from the request is non-empty and is the
  resolved language.
\<close>

definition noopCondition :: "NetURL \<Rightarrow> Strategy \<Rightarrow> 'h LangRedirect \<Rightarrow> Request \<Rightarrow> bool" where
  "noopCondition net s g r =
     (GetLanguage net s r \<noteq> '''' \<and> GetLanguage net s r = resolvedLanguage g r)"

text \<open>
  A bare tag: no comma, no semicolon, no white space at either end. These are the strings
  that the parser returns unchanged as their only candidate.
\<close>

definition bareTag :: "string \<Rightarrow> bool" where
  "bareTag s = (CHR '','' \<notin> set s \<and> CHR '';'' \<notin> set s \<and> TrimSpace s = s)"

text \<open>The writer and the request that a call of the handler leaves.\<close>

fun outWriter :: "'h Outcome \<Rightarrow> ResponseWriter" where
  "outWriter (Next h w r) = w"
| "outWriter (Return w r) = w"

fun outRequest :: "'h Outcome \<Rightarrow> Request" where
  "outRequest (Next h w r) = r"
| "outRequest (Return w r) = r"

text \<open>
  The engine applied twice in succession to the same request: the second call gets the
  writer and the request as the first one left them.
\<close>

definition ServeTwice ::
  "NetURL \<Rightarrow> 'h LangRedirect \<Rightarrow> ResponseWriter \<Rightarrow> Request \<Rightarrow> 'h Outcome" where
  "ServeTwice net g w r =
     (let first = ServeHTTP net g w r
      in ServeHTTP net g (outWriter first) (outRequest first))"

text \<open>
  An instance of the net/url parameters for closed examples under the header and the path
  strategy, which never call them: no pair is decoded and nothing is encoded.
\<close>

definition noQuery :: NetURL where
  "noQuery = \<lparr>ParseQuery = (\<lambda>q. []), Encode = (\<lambda>v. [])\<rparr>"

section \<open>Properties\<close>

subsection \<open>The matcher's loops\<close>

lemma supportedLoop_member: "supportedLoop lang langs = (lang \<in> set langs)"
  by (induction langs) auto

lemma languagesLoop_default:
  "\<forall>c \<in> set cands. c \<notin> set (Languages (config g)) \<Longrightarrow>
   languagesLoop g cands = DefaultLanguage (config g)"
  by (induction cands) (auto simp: supportedLoop_member)

lemma languagesLoop_first:
  "i < length cands \<Longrightarrow> cands ! i \<in> set (Languages (config g)) \<Longrightarrow>
   \<forall>j<i. cands ! j \<notin> set (Languages (config g)) \<Longrightarrow>
   languagesLoop g cands = cands ! i"
proof (induction cands arbitrary: i)
  case Nil
  then show ?case by simp
next
  case (Cons c cs)
  show ?case
  proof (cases i)
    case 0
    with Cons.prems show ?thesis by (simp add: supportedLoop_member)
  next
    case (Suc k)
    with Cons.prems have c: "c \<notin> set (Languages (config g))" by auto
    from Suc Cons.prems have "languagesLoop g cs = cs ! k"
      by (intro Cons.IH) auto
    with c Suc show ?thesis by (simp add: supportedLoop_member)
  qed
qed

lemma languagesLoop_cases:
  "languagesLoop g cands = DefaultLanguage (config g) \<or>
   (languagesLoop g cands \<in> set cands \<and> languagesLoop g cands \<in> set (Languages (config g)))"
  by (induction cands) (auto simp: supportedLoop_member)

subsection \<open>The branches of the handler\<close>

lemma ServeHTTP_skip:
  "skipCondition g r \<Longrightarrow> ServeHTTP net g w r = Next (nextHandler g) w r"
  by (auto simp: ServeHTTP_def skipCondition_def resolvedLanguage_def Let_def)

lemma ServeHTTP_invalid:
  "\<not> skipCondition g r \<Longrightarrow> getStrategy g = Inl e \<Longrightarrow>
   ServeHTTP net g w r = Return (w @ [HttpError ''Internal Server Error'' 500]) r"
  by (auto simp: ServeHTTP_def skipCondition_def resolvedLanguage_def Let_def
      http_Error_def StatusInternalServerError_def)

lemma ServeHTTP_noop:
  "\<not> skipCondition g r \<Longrightarrow> getStrategy g = Inr s \<Longrightarrow> noopCondition net s g r \<Longrightarrow>
   ServeHTTP net g w r = Next (nextHandler g) w r"
  by (auto simp: ServeHTTP_def skipCondition_def noopCondition_def resolvedLanguage_def Let_def)

lemma SetLanguage_writer: "fst (SetLanguage net s w r l) = w"
  by (cases s)
    (simp_all add: HeaderStrategy_SetLanguage_def PathStrategy_SetLanguage_def
      QueryStrategy_SetLanguage_def Let_def)

lemma ServeHTTP_write:
  "\<not> skipCondition g r \<Longrightarrow> getStrategy g = Inr s \<Longrightarrow> \<not> noopCondition net s g r \<Longrightarrow>
   ServeHTTP net g w r =
     (let r' = snd (SetLanguage net s w r (resolvedLanguage g r)) in
      if RedirectAfterHandling (config g)
      then Return (w @ [HttpRedirect (URL r') 302]) r'
      else Next (nextHandler g) w r')"
  using SetLanguage_writer[of net s w r "resolvedLanguage g r"]
  by (auto simp: ServeHTTP_def skipCondition_def noopCondition_def resolvedLanguage_def Let_def
      http_Redirect_def StatusFound_def split: prod.splits)

subsection \<open>Construction and the strategy selector\<close>

text \<open>
  Claim C1 says that construction fails with an invalid-strategy condition whenever the
  selector is none of header, path and query. \<^verbatim>\<open>New\<close> does not look at the selector
  beyond the test for the query parameter: here it returns an instance for the selector
  \<^verbatim>\<open>ftp\<close>.
\<close>

theorem New_invalid_strategy_counterexample:
  "New () \<lparr>Languages = [''en''], DefaultLanguage = ''en'',
        DefaultLanguageHandling = False, LanguageStrategy = ''ftp'',
        LanguageParam = ''lang'', RedirectAfterHandling = False\<rparr> =
     Inr \<lparr>nextHandler = (), config = \<lparr>Languages = [''en''], DefaultLanguage = ''en'',
        DefaultLanguageHandling = False, LanguageStrategy = ''ftp'',
        LanguageParam = ''lang'', RedirectAfterHandling = False\<rparr>\<rparr>"
  by (simp add: New_def StrategyQuery_def)

text \<open>
  Claim C1, amended: with a non-empty language list and a non-empty fallback, a
  configuration whose selector is none of header, path and query is accepted by
  \<^verbatim>\<open>New\<close>. The invalid-strategy error arises per request, in \<^verbatim>\<open>getStrategy\<close>: a request
  that is not skipped is answered with 500 Internal Server Error and the next handler is
  not called; a skipped request is forwarded unchanged.
\<close>

theorem New_accepts_unrecognized_strategy:
  assumes "LanguageStrategy cfg \<noteq> StrategyHeader"
    and "LanguageStrategy cfg \<noteq> StrategyPath"
    and "LanguageStrategy cfg \<noteq> StrategyQuery"
    and "Languages cfg \<noteq> []"
    and "DefaultLanguage cfg \<noteq> ''''"
  shows "New nxt cfg = Inr \<lparr>nextHandler = nxt, config = cfg\<rparr> \<and>
    getStrategy \<lparr>nextHandler = nxt, config = cfg\<rparr> =
      Inl (InvalidLanguageStrategy (LanguageStrategy cfg)) \<and>
    ServeHTTP net \<lparr>nextHandler = nxt, config = cfg\<rparr> w r =
      (if skipCondition \<lparr>nextHandler = nxt, config = cfg\<rparr> r then Next nxt w r
       else Return (w @ [HttpError ''Internal Server Error'' 500]) r)"
proof -
  let ?g = "\<lparr>nextHandler = nxt, config = cfg\<rparr>"
  from assms have new: "New nxt cfg = Inr ?g"
    by (simp add: New_def)
  from assms have strat: "getStrategy ?g = Inl (InvalidLanguageStrategy (LanguageStrategy cfg))"
    by (simp add: getStrategy_def)
  have serve: "ServeHTTP net ?g w r =
      (if skipCondition ?g r then Next nxt w r
       else Return (w @ [HttpError ''Internal Server Error'' 500]) r)"
  proof (cases "skipCondition ?g r")
    case True
    then show ?thesis using ServeHTTP_skip[of ?g r net w] by simp
  next
    case False
    then show ?thesis using ServeHTTP_invalid[OF False strat, of net w] by simp
  qed
  from new strat serve show ?thesis by blast
qed

theorem New_accepts_unrecognized_strategy_witness:
  "New () \<lparr>Languages = [''en'', ''de''], DefaultLanguage = ''en'',
        DefaultLanguageHandling = False, LanguageStrategy = ''cookie'',
        LanguageParam = ''lang'', RedirectAfterHandling = False\<rparr> =
     Inr \<lparr>nextHandler = (), config = \<lparr>Languages = [''en'', ''de''], DefaultLanguage = ''en'',
        DefaultLanguageHandling = False, LanguageStrategy = ''cookie'',
        LanguageParam = ''lang'', RedirectAfterHandling = False\<rparr>\<rparr> \<and>
   ServeHTTP noQuery
     \<lparr>nextHandler = (), config = \<lparr>Languages = [''en'', ''de''], DefaultLanguage = ''en'',
        DefaultLanguageHandling = False, LanguageStrategy = ''cookie'',
        LanguageParam = ''lang'', RedirectAfterHandling = False\<rparr>\<rparr> []
     \<lparr>Method = ''GET'',
      URL = \<lparr>Scheme = '''', Host = '''', Path = ''/about'', RawQuery = '''', Fragment = ''''\<rparr>,
      Header = [(''Accept-Language'', [''de''])]\<rparr> =
     Return [HttpError ''Internal Server Error'' 500]
       \<lparr>Method = ''GET'',
        URL = \<lparr>Scheme = '''', Host = '''', Path = ''/about'', RawQuery = '''', Fragment = ''''\<rparr>,
        Header = [(''Accept-Language'', [''de''])]\<rparr>"
  (is "New () ?cfg = Inr ?g \<and> ServeHTTP noQuery ?g [] ?r = Return ?w ?r")
proof -
  have h: "LanguageStrategy ?cfg \<noteq> StrategyHeader" "LanguageStrategy ?cfg \<noteq> StrategyPath"
    "LanguageStrategy ?cfg \<noteq> StrategyQuery" "Languages ?cfg \<noteq> []" "DefaultLanguage ?cfg \<noteq> ''''"
    by (simp_all add: StrategyHeader_def StrategyPath_def StrategyQuery_def)
  have ns: "\<not> skipCondition ?g ?r" by code_simp
  show ?thesis
    using New_accepts_unrecognized_strategy[OF h, of "()" noQuery "[]" ?r] ns by simp
qed

subsection \<open>The resolved language\<close>

text \<open>
  Claim C2 says that with a non-empty fallback the resolved language is never empty, for
  every configuration and header. The matcher compares candidates with the supported
  languages as they are, and a piece of the header that is empty after trimming is a
  candidate like any other: with the empty string among the supported languages, the
  header \<^verbatim>\<open>fr,\<close> resolves to the empty string. (The handler tests the resolved
  language for being empty before doing anything.)
\<close>

theorem getPreferredLanguage_nonempty_counterexample:
  "getPreferredLanguage
     \<lparr>nextHandler = (), config = \<lparr>Languages = [''en'', ''''], DefaultLanguage = ''en'',
        DefaultLanguageHandling = False, LanguageStrategy = ''header'',
        LanguageParam = ''lang'', RedirectAfterHandling = False\<rparr>\<rparr> ''fr,'' = ''''"
  by code_simp

text \<open>
  Claim C2, amended: for every configuration with a non-empty fallback whose supported
  languages do not include the empty string, and for every raw header value, the resolved
  language is a non-empty string.
\<close>

theorem getPreferredLanguage_nonempty:
  assumes "DefaultLanguage (config g) \<noteq> ''''"
    and "'''' \<notin> set (Languages (config g))"
  shows "getPreferredLanguage g acceptLanguage \<noteq> ''''"
proof -
  let ?l = "languagesLoop g (parseAcceptLanguage acceptLanguage)"
  have "?l = DefaultLanguage (config g) \<or> ?l \<in> set (Languages (config g))"
    using languagesLoop_cases[of g "parseAcceptLanguage acceptLanguage"] by blast
  then show ?thesis
  proof
    assume "?l = DefaultLanguage (config g)"
    with assms(1) show ?thesis by (simp add: getPreferredLanguage_def)
  next
    assume "?l \<in> set (Languages (config g))"
    with assms(2) have "?l \<noteq> ''''" by metis
    then show ?thesis by (simp add: getPreferredLanguage_def)
  qed
qed

theorem getPreferredLanguage_nonempty_witness:
  "getPreferredLanguage
     \<lparr>nextHandler = (), config = \<lparr>Languages = [''en'', ''fr-CA'', ''de''], DefaultLanguage = ''en'',
        DefaultLanguageHandling = False, LanguageStrategy = ''header'',
        LanguageParam = ''lang'', RedirectAfterHandling = False\<rparr>\<rparr> ''fr,'' \<noteq> ''''"
  using getPreferredLanguage_nonempty[of
     "\<lparr>nextHandler = (), config = \<lparr>Languages = [''en'', ''fr-CA'', ''de''], DefaultLanguage = ''en'',
        DefaultLanguageHandling = False, LanguageStrategy = ''header'',
        LanguageParam = ''lang'', RedirectAfterHandling = False\<rparr>\<rparr>" "''fr,''"]
  by simp

text \<open>
  Claim C3: the matcher returns the first candidate, in the order of the candidate
  sequence, that is equal to a supported language, and the fallback when no candidate is;
  with the supported languages en, fr-CA, de the header \<^verbatim>\<open>de,fr-CA\<close> resolves to de.
  Equality of strings is equality byte by byte, so the match is case-sensitive.
\<close>

theorem getPreferredLanguage_first_match:
  "((\<forall>c \<in> set (parseAcceptLanguage acceptLanguage). c \<notin> set (Languages (config g))) \<longrightarrow>
      getPreferredLanguage g acceptLanguage = DefaultLanguage (config g)) \<and>
   (i < length (parseAcceptLanguage acceptLanguage) \<and>
    parseAcceptLanguage acceptLanguage ! i \<in> set (Languages (config g)) \<and>
    (\<forall>j<i. parseAcceptLanguage acceptLanguage ! j \<notin> set (Languages (config g))) \<longrightarrow>
      getPreferredLanguage g acceptLanguage = parseAcceptLanguage acceptLanguage ! i) \<and>
   getPreferredLanguage
     \<lparr>nextHandler = nxt, config = cfg\<lparr>Languages := [''en'', ''fr-CA'', ''de'']\<rparr>\<rparr>
     ''de,fr-CA'' = ''de''"
proof -
  have ex: "parseAcceptLanguage ''de,fr-CA'' = [''de'', ''fr-CA'']" by code_simp
  have "getPreferredLanguage
     \<lparr>nextHandler = nxt, config = cfg\<lparr>Languages := [''en'', ''fr-CA'', ''de'']\<rparr>\<rparr>
     ''de,fr-CA'' = ''de''"
    by (simp add: getPreferredLanguage_def ex)
  then show ?thesis
    using languagesLoop_default[of "parseAcceptLanguage acceptLanguage" g]
      languagesLoop_first[of i "parseAcceptLanguage acceptLanguage" g]
    unfolding getPreferredLanguage_def by blast
qed

theorem getPreferredLanguage_first_match_witness:
  "getPreferredLanguage
     \<lparr>nextHandler = (), config = \<lparr>Languages = [''en'', ''fr-CA'', ''de''], DefaultLanguage = ''en'',
        DefaultLanguageHandling = False, LanguageStrategy = ''header'',
        LanguageParam = ''lang'', RedirectAfterHandling = False\<rparr>\<rparr>
     ''it;q=0.9, fr-CA;q=0.8, en'' = ''fr-CA'' \<and>
   getPreferredLanguage
     \<lparr>nextHandler = (), config = \<lparr>Languages = [''en'', ''fr-CA'', ''de''], DefaultLanguage = ''en'',
        DefaultLanguageHandling = False, LanguageStrategy = ''header'',
        LanguageParam = ''lang'', RedirectAfterHandling = False\<rparr>\<rparr>
     ''it, FR-ca'' = ''en''"
  (is "getPreferredLanguage ?g ?h1 = _ \<and> getPreferredLanguage ?g ?h2 = _")
proof -
  have p1: "parseAcceptLanguage ?h1 = [''it'', ''fr-CA'', ''en'']" by code_simp
  have p2: "parseAcceptLanguage ?h2 = [''it'', ''FR-ca'']" by code_simp
  have one: "getPreferredLanguage ?g ?h1 = ''fr-CA''"
    using getPreferredLanguage_first_match[of ?h1 ?g 1 "()" "config ?g"] by (simp add: p1 less_Suc_eq)
  have two: "getPreferredLanguage ?g ?h2 = ''en''"
    using getPreferredLanguage_first_match[of ?h2 ?g 0 "()" "config ?g"] by (simp add: p2)
  from one two show ?thesis by simp
qed

text \<open>
  Claim C6 says that the empty header resolves to the fallback for every configuration
  with a non-empty supported set and fallback. The parser turns the empty header into one
  empty candidate, which matches when the empty string is among the supported languages:
  the resolved language is then empty, not the fallback de.
\<close>

theorem empty_header_counterexample:
  "getPreferredLanguage
     \<lparr>nextHandler = (), config = \<lparr>Languages = ['''', ''de''], DefaultLanguage = ''de'',
        DefaultLanguageHandling = False, LanguageStrategy = ''header'',
        LanguageParam = ''lang'', RedirectAfterHandling = False\<rparr>\<rparr> '''' = ''''"
  by code_simp

text \<open>
  Claim C6, amended: for every configuration whose supported languages do not include the
  empty string, the empty header resolves to the configured fallback.
\<close>

theorem empty_header_resolves_to_fallback:
  assumes "'''' \<notin> set (Languages (config g))"
  shows "parseAcceptLanguage '''' = [''''] \<and>
    getPreferredLanguage g '''' = DefaultLanguage (config g)"
proof -
  have p: "parseAcceptLanguage '''' = ['''']" by code_simp
  with assms show ?thesis
    by (simp add: getPreferredLanguage_def supportedLoop_member)
qed

theorem empty_header_resolves_to_fallback_witness:
  "getPreferredLanguage
     \<lparr>nextHandler = (), config = \<lparr>Languages = [''en'', ''fr-CA'', ''de''], DefaultLanguage = ''en'',
        DefaultLanguageHandling = False, LanguageStrategy = ''header'',
        LanguageParam = ''lang'', RedirectAfterHandling = False\<rparr>\<rparr> '''' = ''en''"
  using empty_header_resolves_to_fallback[of
     "\<lparr>nextHandler = (), config = \<lparr>Languages = [''en'', ''fr-CA'', ''de''], DefaultLanguage = ''en'',
        DefaultLanguageHandling = False, LanguageStrategy = ''header'',
        LanguageParam = ''lang'', RedirectAfterHandling = False\<rparr>\<rparr>"]
  by simp

subsection \<open>What the handler does with a request\<close>

text \<open>
  Claim C5: with default-language handling disabled, a request whose resolved language is
  the configured fallback is passed to the next handler as it came, with its header, its
  path and its query, and with the writer untouched, whatever the strategy selector is.
\<close>

theorem fallback_forwarded_unchanged:
  assumes "\<not> DefaultLanguageHandling (config g)"
    and "getPreferredLanguage g (Get (Header r) ''Accept-Language'') = DefaultLanguage (config g)"
  shows "ServeHTTP net g w r = Next (nextHandler g) w r"
proof -
  from assms have "skipCondition g r"
    by (simp add: skipCondition_def resolvedLanguage_def)
  then show ?thesis by (rule ServeHTTP_skip)
qed

theorem fallback_forwarded_unchanged_witness:
  "ServeHTTP noQuery
     \<lparr>nextHandler = (), config = \<lparr>Languages = [''en'', ''fr-CA'', ''de''], DefaultLanguage = ''en'',
        DefaultLanguageHandling = False, LanguageStrategy = ''path'',
        LanguageParam = ''lang'', RedirectAfterHandling = True\<rparr>\<rparr> []
     \<lparr>Method = ''GET'',
      URL = \<lparr>Scheme = '''', Host = '''', Path = ''/about'', RawQuery = ''a=1'', Fragment = ''''\<rparr>,
      Header = [(''Accept-Language'', [''it, en;q=0.5''])]\<rparr> =
   Next () []
     \<lparr>Method = ''GET'',
      URL = \<lparr>Scheme = '''', Host = '''', Path = ''/about'', RawQuery = ''a=1'', Fragment = ''''\<rparr>,
      Header = [(''Accept-Language'', [''it, en;q=0.5''])]\<rparr>"
  (is "ServeHTTP noQuery ?g [] ?r = _")
proof -
  have h1: "\<not> DefaultLanguageHandling (config ?g)" by simp
  have h2: "getPreferredLanguage ?g (Get (Header ?r) ''Accept-Language'') = DefaultLanguage (config ?g)"
    by code_simp
  show ?thesis
    using fallback_forwarded_unchanged[OF h1 h2, of noQuery "[]"] by simp
qed

text \<open>
  Claim C4: when the write step runs (the request is not skipped, a strategy is obtained
  and the no-op condition does not hold) and redirect-after-handling is enabled, the
  handler issues a redirect with status 302 to the URL of the request as the write left
  it, and returns without calling the next handler. In the other cases, skipped or
  handled, the next handler is called: with the request as it came when it is skipped or
  already carries the language, with the rewritten request when the write ran and the
  flag is off.
\<close>

theorem redirect_or_forward:
  "(skipCondition g r \<longrightarrow> ServeHTTP net g w r = Next (nextHandler g) w r) \<and>
   (\<not> skipCondition g r \<and> getStrategy g = Inr s \<and> noopCondition net s g r \<longrightarrow>
      ServeHTTP net g w r = Next (nextHandler g) w r) \<and>
   (\<not> skipCondition g r \<and> getStrategy g = Inr s \<and> \<not> noopCondition net s g r \<and>
    \<not> RedirectAfterHandling (config g) \<longrightarrow>
      ServeHTTP net g w r =
        Next (nextHandler g) w (snd (SetLanguage net s w r (resolvedLanguage g r)))) \<and>
   (\<not> skipCondition g r \<and> getStrategy g = Inr s \<and> \<not> noopCondition net s g r \<and>
    RedirectAfterHandling (config g) \<longrightarrow>
      ServeHTTP net g w r =
        Return (w @ [HttpRedirect (URL (snd (SetLanguage net s w r (resolvedLanguage g r)))) 302])
          (snd (SetLanguage net s w r (resolvedLanguage g r))))"
proof (intro conjI impI)
  assume "skipCondition g r"
  then show "ServeHTTP net g w r = Next (nextHandler g) w r" by (rule ServeHTTP_skip)
next
  assume "\<not> skipCondition g r \<and> getStrategy g = Inr s \<and> noopCondition net s g r"
  then show "ServeHTTP net g w r = Next (nextHandler g) w r"
    using ServeHTTP_noop by blast
next
  assume a: "\<not> skipCondition g r \<and> getStrategy g = Inr s \<and> \<not> noopCondition net s g r \<and>
    \<not> RedirectAfterHandling (config g)"
  then have "\<not> skipCondition g r" "getStrategy g = Inr s" "\<not> noopCondition net s g r"
    by blast+
  from ServeHTTP_write[OF this, of w] a
  show "ServeHTTP net g w r =
        Next (nextHandler g) w (snd (SetLanguage net s w r (resolvedLanguage g r)))"
    by (simp add: Let_def)
next
  assume a: "\<not> skipCondition g r \<and> getStrategy g = Inr s \<and> \<not> noopCondition net s g r \<and>
    RedirectAfterHandling (config g)"
  then have "\<not> skipCondition g r" "getStrategy g = Inr s" "\<not> noopCondition net s g r"
    by blast+
  from ServeHTTP_write[OF this, of w] a
  show "ServeHTTP net g w r =
        Return (w @ [HttpRedirect (URL (snd (SetLanguage net s w r (resolvedLanguage g r)))) 302])
          (snd (SetLanguage net s w r (resolvedLanguage g r)))"
    by (simp add: Let_def)
qed

theorem redirect_or_forward_witness:
  "ServeHTTP noQuery
     \<lparr>nextHandler = (), config = \<lparr>Languages = [''en'', ''fr-CA'', ''de''], DefaultLanguage = ''en'',
        DefaultLanguageHandling = False, LanguageStrategy = ''path'',
        LanguageParam = ''lang'', RedirectAfterHandling = True\<rparr>\<rparr> []
     \<lparr>Method = ''GET'',
      URL = \<lparr>Scheme = '''', Host = '''', Path = ''/about'', RawQuery = ''a=1'', Fragment = ''''\<rparr>,
      Header = [(''Accept-Language'', [''de, en;q=0.5''])]\<rparr> =
   Return
     [HttpRedirect
        \<lparr>Scheme = '''', Host = '''', Path = ''/de/about'', RawQuery = ''a=1'', Fragment = ''''\<rparr> 302]
     \<lparr>Method = ''GET'',
      URL = \<lparr>Scheme = '''', Host = '''', Path = ''/de/about'', RawQuery = ''a=1'', Fragment = ''''\<rparr>,
      Header = [(''Accept-Language'', [''de, en;q=0.5''])]\<rparr>"
  (is "ServeHTTP noQuery ?g [] ?r = _")
proof -
  have h1: "\<not> skipCondition ?g ?r" by code_simp
  have h2: "getStrategy ?g = Inr PathStrategy" by code_simp
  have h3: "\<not> noopCondition noQuery PathStrategy ?g ?r" by code_simp
  have h4: "resolvedLanguage ?g ?r = ''de''" by code_simp
  show ?thesis
    using redirect_or_forward[of ?g ?r noQuery "[]" PathStrategy] h1 h2 h3
    by (simp add: h4 PathStrategy_SetLanguage_def)
qed

subsection \<open>The path strategy\<close>

lemma Split_nonempty: "Split s sep \<noteq> []"
  by (induction s) (auto split: list.splits)

lemma Split_hd: "hd (Split s sep) = takeWhile (\<lambda>c. c \<noteq> sep) s"
  by (induction s) (auto split: list.splits simp: Split_nonempty)

lemma Split_prefix: "sep \<notin> set pre \<Longrightarrow> Split (pre @ sep # rest) sep = pre # Split rest sep"
  by (induction pre) (auto split: list.splits)

lemma Split_single: "sep \<notin> set s \<Longrightarrow> Split s sep = [s]"
  by (induction s) (auto split: list.splits)

lemma Split_pieces: "p \<in> set (Split s sep) \<Longrightarrow> sep \<notin> set p"
proof (induction s arbitrary: p)
  case Nil
  then show ?case by simp
next
  case (Cons c cs)
  show ?case
  proof (cases "c = sep")
    case True
    with Cons show ?thesis by auto
  next
    case False
    obtain x xs where sp: "Split cs sep = x # xs"
      using Split_nonempty[of cs sep] by (cases "Split cs sep") auto
    with False Cons.prems have "p = c # x \<or> p \<in> set xs" by simp
    moreover have "sep \<notin> set x" using Cons.IH[of x] sp by simp
    moreover have "p \<in> set xs \<Longrightarrow> sep \<notin> set p" using Cons.IH[of p] sp by simp
    ultimately show ?thesis using False by auto
  qed
qed

lemma PathStrategy_GetLanguage_after_slash:
  assumes "Path (URL r) = pre @ CHR ''/'' # rest" and "CHR ''/'' \<notin> set pre"
  shows "PathStrategy_GetLanguage r =
    (if length (takeWhile (\<lambda>c. c \<noteq> CHR ''/'') rest) = 2
     then takeWhile (\<lambda>c. c \<noteq> CHR ''/'') rest else '''')"
proof -
  have sp: "Split (Path (URL r)) CHR ''/'' = pre # Split rest CHR ''/''"
    using assms by (simp add: Split_prefix)
  obtain x xs where xs: "Split rest CHR ''/'' = x # xs"
    using Split_nonempty[of rest "CHR ''/''"] by (cases "Split rest CHR ''/''") auto
  have "x = takeWhile (\<lambda>c. c \<noteq> CHR ''/'') rest"
    using Split_hd[of rest "CHR ''/''"] xs by simp
  then show ?thesis
    by (simp add: PathStrategy_GetLanguage_def sp xs)
qed

lemma PathStrategy_GetLanguage_no_slash:
  assumes "CHR ''/'' \<notin> set (Path (URL r))"
  shows "PathStrategy_GetLanguage r = ''''"
  using assms by (simp add: PathStrategy_GetLanguage_def Split_single)

lemma PathStrategy_GetLanguage_length:
  "PathStrategy_GetLanguage r = '''' \<or> length (PathStrategy_GetLanguage r) = 2"
  by (simp add: PathStrategy_GetLanguage_def Let_def)

text \<open>
  Claim C8: the read of the path strategy returns the first path segment (the text
  between the slash that begins the path and the next slash or the end) when it is
  exactly two bytes long, and the empty string otherwise, also for a path with no slash
  at all. In general the segment read is the one that follows the first slash. The write
  turns the path \<^verbatim>\<open>/\<close> into \<^verbatim>\<open>/t\<close> and any other path \<^verbatim>\<open>p\<close> into \<^verbatim>\<open>/tp\<close>:
  \<^verbatim>\<open>/about\<close> with the tag en becomes \<^verbatim>\<open>/en/about\<close>.
\<close>

theorem PathStrategy_read_and_write:
  "(Path (URL r) = CHR ''/'' # rest \<longrightarrow>
      PathStrategy_GetLanguage r =
        (if length (takeWhile (\<lambda>c. c \<noteq> CHR ''/'') rest) = 2
         then takeWhile (\<lambda>c. c \<noteq> CHR ''/'') rest else '''')) \<and>
   (Path (URL r) = pre @ CHR ''/'' # rest \<and> CHR ''/'' \<notin> set pre \<longrightarrow>
      PathStrategy_GetLanguage r =
        (if length (takeWhile (\<lambda>c. c \<noteq> CHR ''/'') rest) = 2
         then takeWhile (\<lambda>c. c \<noteq> CHR ''/'') rest else '''')) \<and>
   (CHR ''/'' \<notin> set (Path (URL r)) \<longrightarrow> PathStrategy_GetLanguage r = '''') \<and>
   PathStrategy_SetLanguage w r t =
     (w, r\<lparr>URL := (URL r)\<lparr>Path :=
        (if Path (URL r) = ''/'' then ''/'' @ t else ''/'' @ t @ Path (URL r))\<rparr>\<rparr>) \<and>
   Path (URL (snd (PathStrategy_SetLanguage w (r\<lparr>URL := (URL r)\<lparr>Path := ''/''\<rparr>\<rparr>) ''en''))) =
     ''/en'' \<and>
   Path (URL (snd (PathStrategy_SetLanguage w (r\<lparr>URL := (URL r)\<lparr>Path := ''/about''\<rparr>\<rparr>) ''en''))) =
     ''/en/about''"
proof -
  have a: "Path (URL r) = CHR ''/'' # rest \<longrightarrow>
      PathStrategy_GetLanguage r =
        (if length (takeWhile (\<lambda>c. c \<noteq> CHR ''/'') rest) = 2
         then takeWhile (\<lambda>c. c \<noteq> CHR ''/'') rest else '''')"
    using PathStrategy_GetLanguage_after_slash[of r "[]" rest] by simp
  have b: "Path (URL r) = pre @ CHR ''/'' # rest \<and> CHR ''/'' \<notin> set pre \<longrightarrow>
      PathStrategy_GetLanguage r =
        (if length (takeWhile (\<lambda>c. c \<noteq> CHR ''/'') rest) = 2
         then takeWhile (\<lambda>c. c \<noteq> CHR ''/'') rest else '''')"
    using PathStrategy_GetLanguage_after_slash[of r pre rest] by blast
  have c: "CHR ''/'' \<notin> set (Path (URL r)) \<longrightarrow> PathStrategy_GetLanguage r = ''''"
    using PathStrategy_GetLanguage_no_slash by blast
  have d: "PathStrategy_SetLanguage w r t =
     (w, r\<lparr>URL := (URL r)\<lparr>Path :=
        (if Path (URL r) = ''/'' then ''/'' @ t else ''/'' @ t @ Path (URL r))\<rparr>\<rparr>)"
    by (simp add: PathStrategy_SetLanguage_def)
  have e: "Path (URL (snd (PathStrategy_SetLanguage w (r\<lparr>URL := (URL r)\<lparr>Path := ''/''\<rparr>\<rparr>) ''en''))) =
     ''/en''"
    by (simp add: PathStrategy_SetLanguage_def)
  have f: "Path (URL (snd (PathStrategy_SetLanguage w (r\<lparr>URL := (URL r)\<lparr>Path := ''/about''\<rparr>\<rparr>) ''en''))) =
     ''/en/about''"
    by (simp add: PathStrategy_SetLanguage_def)
  from a b c d e f show ?thesis by blast
qed

theorem PathStrategy_read_and_write_witness:
  "PathStrategy_GetLanguage
     \<lparr>Method = ''GET'',
      URL = \<lparr>Scheme = '''', Host = '''', Path = ''/en/about'', RawQuery = '''', Fragment = ''''\<rparr>,
      Header = []\<rparr> = ''en'' \<and>
   PathStrategy_GetLanguage
     \<lparr>Method = ''GET'',
      URL = \<lparr>Scheme = '''', Host = '''', Path = ''/about/en'', RawQuery = '''', Fragment = ''''\<rparr>,
      Header = []\<rparr> = '''' \<and>
   PathStrategy_GetLanguage
     \<lparr>Method = ''OPTIONS'',
      URL = \<lparr>Scheme = '''', Host = '''', Path = ''*'', RawQuery = '''', Fragment = ''''\<rparr>,
      Header = []\<rparr> = ''''"
  (is "PathStrategy_GetLanguage ?r1 = _ \<and> PathStrategy_GetLanguage ?r2 = _ \<and>
       PathStrategy_GetLanguage ?r3 = _")
proof -
  have one: "PathStrategy_GetLanguage ?r1 = ''en''"
    using PathStrategy_read_and_write[of ?r1 "''en/about''" "[]" "[]" "''en''"] by simp
  have two: "PathStrategy_GetLanguage ?r2 = ''''"
    using PathStrategy_read_and_write[of ?r2 "''about/en''" "[]" "[]" "''en''"] by simp
  have three: "PathStrategy_GetLanguage ?r3 = ''''"
    using PathStrategy_read_and_write[of ?r3 "[]" "[]" "[]" "''en''"] by simp
  from one two three show ?thesis by simp
qed

subsection \<open>Who writes the response\<close>

lemma ServeHTTP_outcomes:
  "ServeHTTP net g w r = Next (nextHandler g) w (outRequest (ServeHTTP net g w r)) \<or>
   ServeHTTP net g w r =
     Return (w @ [HttpRedirect (URL (outRequest (ServeHTTP net g w r))) 302])
       (outRequest (ServeHTTP net g w r)) \<or>
   ServeHTTP net g w r = Return (w @ [HttpError ''Internal Server Error'' 500]) r"
proof (cases "skipCondition g r")
  case True
  then show ?thesis by (simp add: ServeHTTP_skip)
next
  case ns: False
  show ?thesis
  proof (cases "getStrategy g")
    case (Inl e)
    with ns show ?thesis by (simp add: ServeHTTP_invalid)
  next
    case (Inr s)
    show ?thesis
    proof (cases "noopCondition net s g r")
      case True
      with ns Inr show ?thesis by (simp add: ServeHTTP_noop)
    next
      case False
      with ns Inr show ?thesis by (simp add: ServeHTTP_write Let_def)
    qed
  qed
qed

text \<open>
  Claim C10: no strategy's write touches the response writer. For each of the three
  variants and every input, \<^verbatim>\<open>SetLanguage\<close> returns the writer as it got it and changes
  the request only in the Accept-Language header, in the path of the URL or in its raw
  query. The handler leaves the writer alone when it calls the next handler, and writes to
  it only in its redirect step and in its internal-error branch.
\<close>

theorem SetLanguage_leaves_response:
  "fst (SetLanguage net s w r language) = w \<and>
   snd (SetLanguage net HeaderStrategy w r language) =
     r\<lparr>Header := Set_value (Header r) ''Accept-Language'' language\<rparr> \<and>
   (\<exists>p. snd (SetLanguage net PathStrategy w r language) = r\<lparr>URL := (URL r)\<lparr>Path := p\<rparr>\<rparr>) \<and>
   (\<exists>q. snd (SetLanguage net (QueryStrategy param) w r language) =
      r\<lparr>URL := (URL r)\<lparr>RawQuery := q\<rparr>\<rparr>) \<and>
   (ServeHTTP net g w r = Next (nextHandler g) w (outRequest (ServeHTTP net g w r)) \<or>
    ServeHTTP net g w r =
      Return (w @ [HttpRedirect (URL (outRequest (ServeHTTP net g w r))) 302])
        (outRequest (ServeHTTP net g w r)) \<or>
    ServeHTTP net g w r = Return (w @ [HttpError ''Internal Server Error'' 500]) r)"
proof -
  have a: "fst (SetLanguage net s w r language) = w"
    by (rule SetLanguage_writer)
  have b: "snd (SetLanguage net HeaderStrategy w r language) =
     r\<lparr>Header := Set_value (Header r) ''Accept-Language'' language\<rparr>"
    by (simp add: HeaderStrategy_SetLanguage_def)
  have c: "\<exists>p. snd (SetLanguage net PathStrategy w r language) = r\<lparr>URL := (URL r)\<lparr>Path := p\<rparr>\<rparr>"
    by (simp add: PathStrategy_SetLanguage_def) blast
  have d: "\<exists>q. snd (SetLanguage net (QueryStrategy param) w r language) =
      r\<lparr>URL := (URL r)\<lparr>RawQuery := q\<rparr>\<rparr>"
    by (simp add: QueryStrategy_SetLanguage_def Let_def) blast
  from a b c d ServeHTTP_outcomes[of net g w r] show ?thesis by blast
qed

theorem SetLanguage_leaves_response_witness:
  "fst (SetLanguage noQuery (QueryStrategy ''lg'') [HttpError ''earlier'' 418]
     \<lparr>Method = ''GET'',
      URL = \<lparr>Scheme = '''', Host = '''', Path = ''/about'', RawQuery = ''lg=de'', Fragment = ''''\<rparr>,
      Header = [(''Accept-Language'', [''fr-CA''])]\<rparr> ''fr-CA'') = [HttpError ''earlier'' 418]"
  using SetLanguage_leaves_response[of noQuery "QueryStrategy ''lg''" "[HttpError ''earlier'' 418]"
     "\<lparr>Method = ''GET'',
      URL = \<lparr>Scheme = '''', Host = '''', Path = ''/about'', RawQuery = ''lg=de'', Fragment = ''''\<rparr>,
      Header = [(''Accept-Language'', [''fr-CA''])]\<rparr>" "''fr-CA''" "''lg''"
     "\<lparr>nextHandler = (), config = CreateConfig\<rparr>"]
  by simp

subsection \<open>The path strategy applied twice\<close>

lemma PathStrategy_SetLanguage_Header:
  "Header (snd (PathStrategy_SetLanguage w r l)) = Header r"
  by (simp add: PathStrategy_SetLanguage_def)

lemma PathStrategy_SetLanguage_Path:
  "Path (URL (snd (PathStrategy_SetLanguage w r l))) =
     ''/'' @ l @ (if Path (URL r) = ''/'' then '''' else Path (URL r))"
  by (simp add: PathStrategy_SetLanguage_def)

lemma getStrategy_path:
  "LanguageStrategy (config g) = StrategyPath \<Longrightarrow> getStrategy g = Inr PathStrategy"
  by (simp add: getStrategy_def StrategyPath_def StrategyHeader_def)

lemma path_never_noop:
  assumes "l \<noteq> ''''" and "length l \<noteq> 2"
  shows "PathStrategy_GetLanguage r \<noteq> l"
  using assms PathStrategy_GetLanguage_length[of r] by auto

lemma ServeHTTP_path_write:
  assumes "LanguageStrategy (config g) = StrategyPath"
    and "\<not> skipCondition g r"
    and "length (resolvedLanguage g r) \<noteq> 2"
  shows "outRequest (ServeHTTP net g w r) =
    snd (PathStrategy_SetLanguage w r (resolvedLanguage g r))"
proof -
  from assms(2) have ne: "resolvedLanguage g r \<noteq> ''''"
    by (simp add: skipCondition_def)
  have "\<not> noopCondition net PathStrategy g r"
    using path_never_noop[OF ne assms(3), of r] by (simp add: noopCondition_def)
  from ServeHTTP_write[OF assms(2) getStrategy_path[OF assms(1)] this, of w]
  show ?thesis by (simp add: Let_def)
qed

text \<open>
  Claim C9: under the path strategy, a resolved language whose length is not 2 (fr-CA, for
  one) is never what the read returns, so a request that is not skipped is rewritten each
  time the engine is applied: after one application the tag is the first segment, after
  two it stands twice, and \<^verbatim>\<open>/about\<close> has become \<^verbatim>\<open>/fr-CA/fr-CA/about\<close>. Two
  applications do not leave the path that one leaves.
\<close>

theorem path_strategy_prepends_twice:
  assumes "LanguageStrategy (config g) = StrategyPath"
    and "\<not> skipCondition g r"
    and "length (resolvedLanguage g r) \<noteq> 2"
  shows "PathStrategy_GetLanguage r' \<noteq> resolvedLanguage g r \<and>
    Path (URL (outRequest (ServeHTTP net g w r))) =
      ''/'' @ resolvedLanguage g r @ (if Path (URL r) = ''/'' then '''' else Path (URL r)) \<and>
    Path (URL (outRequest (ServeTwice net g w r))) =
      ''/'' @ resolvedLanguage g r @ ''/'' @ resolvedLanguage g r @
        (if Path (URL r) = ''/'' then '''' else Path (URL r)) \<and>
    Path (URL (outRequest (ServeTwice net g w r))) \<noteq>
      Path (URL (outRequest (ServeHTTP net g w r)))"
proof -
  let ?l = "resolvedLanguage g r"
  let ?r1 = "outRequest (ServeHTTP net g w r)"
  let ?w1 = "outWriter (ServeHTTP net g w r)"
  from assms(2) have ne: "?l \<noteq> ''''"
    by (simp add: skipCondition_def)
  have never: "PathStrategy_GetLanguage r' \<noteq> ?l"
    using path_never_noop[OF ne assms(3)] .
  have r1: "?r1 = snd (PathStrategy_SetLanguage w r ?l)"
    using ServeHTTP_path_write[OF assms] .
  then have p1: "Path (URL ?r1) = ''/'' @ ?l @ (if Path (URL r) = ''/'' then '''' else Path (URL r))"
    by (simp add: PathStrategy_SetLanguage_Path)
  from r1 have "Header ?r1 = Header r"
    by (simp add: PathStrategy_SetLanguage_Header)
  then have same: "resolvedLanguage g ?r1 = ?l"
    by (simp add: resolvedLanguage_def)
  with assms(2) have ns1: "\<not> skipCondition g ?r1"
    by (simp add: skipCondition_def)
  from assms(3) same have len1: "length (resolvedLanguage g ?r1) \<noteq> 2" by simp
  have "outRequest (ServeHTTP net g ?w1 ?r1) =
      snd (PathStrategy_SetLanguage ?w1 ?r1 (resolvedLanguage g ?r1))"
    using ServeHTTP_path_write[OF assms(1) ns1 len1] .
  then have "Path (URL (outRequest (ServeHTTP net g ?w1 ?r1))) =
      ''/'' @ ?l @ (if Path (URL ?r1) = ''/'' then '''' else Path (URL ?r1))"
    by (simp add: PathStrategy_SetLanguage_Path same)
  moreover from ne have "Path (URL ?r1) \<noteq> ''/''"
    by (cases ?l) (simp_all add: p1)
  ultimately have p2: "Path (URL (outRequest (ServeTwice net g w r))) =
      ''/'' @ ?l @ ''/'' @ ?l @ (if Path (URL r) = ''/'' then '''' else Path (URL r))"
    by (simp add: ServeTwice_def Let_def p1)
  have "length (Path (URL (outRequest (ServeTwice net g w r)))) \<noteq> length (Path (URL ?r1))"
    by (simp add: p1 p2)
  then have differ: "Path (URL (outRequest (ServeTwice net g w r))) \<noteq> Path (URL ?r1)"
    by metis
  from never p1 p2 differ show ?thesis by blast
qed

theorem path_strategy_prepends_twice_witness:
  "Path (URL (outRequest (ServeTwice noQuery
     \<lparr>nextHandler = (), config = \<lparr>Languages = [''en'', ''fr-CA'', ''de''], DefaultLanguage = ''en'',
        DefaultLanguageHandling = False, LanguageStrategy = ''path'',
        LanguageParam = ''lang'', RedirectAfterHandling = False\<rparr>\<rparr> []
     \<lparr>Method = ''GET'',
      URL = \<lparr>Scheme = '''', Host = '''', Path = ''/about'', RawQuery = '''', Fragment = ''''\<rparr>,
      Header = [(''Accept-Language'', [''fr-CA''])]\<rparr>))) = ''/fr-CA/fr-CA/about''"
  (is "Path (URL (outRequest (ServeTwice noQuery ?g [] ?r))) = _")
proof -
  have h1: "LanguageStrategy (config ?g) = StrategyPath" by (simp add: StrategyPath_def)
  have h2: "\<not> skipCondition ?g ?r" by code_simp
  have l: "resolvedLanguage ?g ?r = ''fr-CA''" by code_simp
  then have h3: "length (resolvedLanguage ?g ?r) \<noteq> 2" by simp
  show ?thesis
    using path_strategy_prepends_twice[OF h1 h2 h3, of ?r noQuery "[]"] by (simp add: l)
qed

subsection \<open>Trimming, candidates and bare tags\<close>

lemma TrimLeft_None: "leadingSpace s = None \<Longrightarrow> TrimLeft s = s"
  by (simp add: TrimLeft.simps[of s])

lemma TrimRight_None: "trailingSpace s = None \<Longrightarrow> TrimRight s = s"
  by (simp add: TrimRight.simps[of s])

lemma TrimLeft_leading: "leadingSpace (TrimLeft s) = None"
proof (induction s rule: TrimLeft.induct)
  case (1 s)
  show ?case
  proof (cases "leadingSpace s")
    case None
    then show ?thesis by (simp add: TrimLeft.simps[of s])
  next
    case (Some w)
    with 1 show ?thesis by (simp add: TrimLeft.simps[of s])
  qed
qed

lemma TrimRight_trailing: "trailingSpace (TrimRight s) = None"
proof (induction s rule: TrimRight.induct)
  case (1 s)
  show ?case
  proof (cases "trailingSpace s")
    case None
    then show ?thesis by (simp add: TrimRight.simps[of s])
  next
    case (Some w)
    with 1 show ?thesis by (simp add: TrimRight.simps[of s])
  qed
qed

lemma TrimLeft_set: "set (TrimLeft s) \<subseteq> set s"
proof (induction s rule: TrimLeft.induct)
  case (1 s)
  show ?case
  proof (cases "leadingSpace s")
    case None
    then show ?thesis by (simp add: TrimLeft.simps[of s])
  next
    case (Some w)
    with 1 have "set (TrimLeft (drop (length w) s)) \<subseteq> set (drop (length w) s)" by simp
    also have "\<dots> \<subseteq> set s" by (rule set_drop_subset)
    finally show ?thesis using Some by (simp add: TrimLeft.simps[of s])
  qed
qed

lemma TrimRight_take: "\<exists>n. TrimRight s = take n s"
proof (induction s rule: TrimRight.induct)
  case (1 s)
  show ?case
  proof (cases "trailingSpace s")
    case None
    then have "TrimRight s = take (length s) s" by (simp add: TrimRight.simps[of s])
    then show ?thesis by blast
  next
    case (Some w)
    with 1 obtain n where
      "TrimRight (take (length s - length w) s) = take n (take (length s - length w) s)"
      by blast
    with Some have "TrimRight s = take (min n (length s - length w)) s"
      by (simp add: TrimRight.simps[of s])
    then show ?thesis by blast
  qed
qed

lemma leadingSpace_take:
  assumes "leadingSpace z = None"
  shows "leadingSpace (take n z) = None"
proof (rule ccontr)
  assume "leadingSpace (take n z) \<noteq> None"
  then obtain w where w: "leadingSpace (take n z) = Some w" by blast
  then have win: "w \<in> set spaceRunes" and tk: "take (length w) (take n z) = w"
    unfolding leadingSpace_def using find_Some_holds[of _ spaceRunes w] by blast+
  from tk have "length w \<le> n"
    by (metis length_take min.cobounded1 min.cobounded2 order_trans)
  with tk have "take (length w) z = w" by (simp add: min_absorb1)
  with win have "\<exists>x \<in> set spaceRunes. take (length x) z = x" by blast
  then have "leadingSpace z \<noteq> None"
    unfolding leadingSpace_def by (auto simp: find_None_iff)
  with assms show False by simp
qed

lemma TrimSpace_idem: "TrimSpace (TrimSpace s) = TrimSpace s"
proof -
  obtain n where n: "TrimRight (TrimLeft s) = take n (TrimLeft s)"
    using TrimRight_take by blast
  have "leadingSpace (TrimSpace s) = None"
    unfolding TrimSpace_def n by (rule leadingSpace_take) (rule TrimLeft_leading)
  then have "TrimLeft (TrimSpace s) = TrimSpace s" by (rule TrimLeft_None)
  moreover have "trailingSpace (TrimSpace s) = None"
    unfolding TrimSpace_def by (rule TrimRight_trailing)
  ultimately show ?thesis
    by (simp add: TrimSpace_def[of "TrimSpace s"] TrimRight_None)
qed

lemma TrimSpace_set: "set (TrimSpace s) \<subseteq> set s"
proof -
  obtain n where "TrimRight (TrimLeft s) = take n (TrimLeft s)"
    using TrimRight_take by blast
  then have "set (TrimSpace s) \<subseteq> set (TrimLeft s)"
    by (simp add: TrimSpace_def set_take_subset)
  then show ?thesis using TrimLeft_set[of s] by blast
qed

lemma SplitN2_hd: "hd (SplitN2 s sep) = takeWhile (\<lambda>c. c \<noteq> sep) s"
proof (cases "sep \<in> set s")
  case True
  then show ?thesis by (simp add: SplitN2_def)
next
  case False
  then have "hd [s] = takeWhile (\<lambda>c. c \<noteq> sep) s"
    by (induction s) auto
  with False show ?thesis by (simp add: SplitN2_def)
qed

lemma candidates_bare:
  assumes "c \<in> set (parseAcceptLanguage h)"
  shows "bareTag c"
proof -
  from assms obtain part where part: "part \<in> set (Split h CHR '','')"
    and c: "c = TrimSpace (takeWhile (\<lambda>x. x \<noteq> CHR '';'') part)"
    by (auto simp: parseAcceptLanguage_def SplitN2_hd)
  let ?t = "takeWhile (\<lambda>x. x \<noteq> CHR '';'') part"
  have "CHR '','' \<notin> set part" using part by (rule Split_pieces)
  moreover have "set ?t \<subseteq> set part" by (auto dest: set_takeWhileD)
  moreover have "CHR '';'' \<notin> set ?t" by (auto dest: set_takeWhileD)
  moreover have "set c \<subseteq> set ?t" unfolding c by (rule TrimSpace_set)
  ultimately have "CHR '','' \<notin> set c" "CHR '';'' \<notin> set c" by blast+
  moreover have "TrimSpace c = c" unfolding c by (rule TrimSpace_idem)
  ultimately show ?thesis by (simp add: bareTag_def)
qed

lemma parse_bare:
  assumes "bareTag c"
  shows "parseAcceptLanguage c = [c]"
proof -
  from assms have "CHR '','' \<notin> set c" "CHR '';'' \<notin> set c" "TrimSpace c = c"
    by (simp_all add: bareTag_def)
  then show ?thesis
    by (simp add: parseAcceptLanguage_def Split_single SplitN2_def)
qed

lemma getPreferredLanguage_bare:
  assumes "bareTag l"
    and "l \<in> set (Languages (config g)) \<or> l = DefaultLanguage (config g)"
  shows "getPreferredLanguage g l = l"
  using assms by (auto simp: getPreferredLanguage_def parse_bare supportedLoop_member)

lemma getPreferredLanguage_cases:
  "getPreferredLanguage g h = DefaultLanguage (config g) \<or>
   (bareTag (getPreferredLanguage g h) \<and> getPreferredLanguage g h \<in> set (Languages (config g)))"
  using languagesLoop_cases[of g "parseAcceptLanguage h"] candidates_bare[of _ h]
  unfolding getPreferredLanguage_def by blast


subsection \<open>The header strategy applied twice\<close>

lemma Get_Set_value: "Get (Set_value h key v) key = v"
  by (simp add: Get_def Set_value_def update_conv')

lemma getStrategy_header:
  "LanguageStrategy (config g) = StrategyHeader \<Longrightarrow> getStrategy g = Inr HeaderStrategy"
  by (simp add: getStrategy_def)

text \<open>
  Claim C7 says that under the header strategy with redirect-after-handling disabled, two
  applications of the engine leave the same Accept-Language header as one. The fallback
  is written into the header as it is configured, and the next application parses it
  like any header: with the fallback \<^verbatim>\<open>en\<close> followed by a space, default-language
  handling enabled and en supported, the header \<^verbatim>\<open>it\<close> becomes the fallback (with its
  space) after one application and \<^verbatim>\<open>en\<close> after two.
\<close>

theorem header_idempotence_counterexample:
  "Get (Header (outRequest (ServeHTTP noQuery
     \<lparr>nextHandler = (), config = \<lparr>Languages = [''en'', ''de''], DefaultLanguage = ''en '',
        DefaultLanguageHandling = True, LanguageStrategy = ''header'',
        LanguageParam = ''lang'', RedirectAfterHandling = False\<rparr>\<rparr> []
     \<lparr>Method = ''GET'',
      URL = \<lparr>Scheme = '''', Host = '''', Path = ''/'', RawQuery = '''', Fragment = ''''\<rparr>,
      Header = [(''Accept-Language'', [''it''])]\<rparr>))) ''Accept-Language'' = ''en '' \<and>
   Get (Header (outRequest (ServeTwice noQuery
     \<lparr>nextHandler = (), config = \<lparr>Languages = [''en'', ''de''], DefaultLanguage = ''en '',
        DefaultLanguageHandling = True, LanguageStrategy = ''header'',
        LanguageParam = ''lang'', RedirectAfterHandling = False\<rparr>\<rparr> []
     \<lparr>Method = ''GET'',
      URL = \<lparr>Scheme = '''', Host = '''', Path = ''/'', RawQuery = '''', Fragment = ''''\<rparr>,
      Header = [(''Accept-Language'', [''it''])]\<rparr>))) ''Accept-Language'' = ''en''"
  by code_simp

text \<open>
  Claim C7, amended: under the header strategy with redirect-after-handling disabled, if
  the configured fallback is a bare tag (no comma, no semicolon, no white space at either
  end) or default-language handling is disabled, then applying the engine twice in
  succession to the same request gives the same outcome, and so the same final
  Accept-Language header value, as applying it once: the second application changes
  nothing.
\<close>

theorem header_strategy_idempotent:
  assumes "LanguageStrategy (config g) = StrategyHeader"
    and "\<not> RedirectAfterHandling (config g)"
    and "bareTag (DefaultLanguage (config g)) \<or> \<not> DefaultLanguageHandling (config g)"
  shows "ServeTwice net g w r = ServeHTTP net g w r \<and>
    Get (Header (outRequest (ServeTwice net g w r))) ''Accept-Language'' =
    Get (Header (outRequest (ServeHTTP net g w r))) ''Accept-Language''"
proof -
  let ?l = "resolvedLanguage g r"
  have strat: "getStrategy g = Inr HeaderStrategy"
    using assms(1) by (rule getStrategy_header)
  have twice: "ServeTwice net g w r = ServeHTTP net g w r"
  proof (cases "skipCondition g r")
    case True
    then have "ServeHTTP net g w r = Next (nextHandler g) w r" by (rule ServeHTTP_skip)
    then show ?thesis by (simp add: ServeTwice_def)
  next
    case ns: False
    show ?thesis
    proof (cases "noopCondition net HeaderStrategy g r")
      case True
      with ns strat have "ServeHTTP net g w r = Next (nextHandler g) w r"
        by (simp add: ServeHTTP_noop)
      then show ?thesis by (simp add: ServeTwice_def)
    next
      case False
      let ?r1 = "r\<lparr>Header := Set_value (Header r) ''Accept-Language'' ?l\<rparr>"
      from ServeHTTP_write[OF ns strat False, of w] assms(2)
      have first: "ServeHTTP net g w r = Next (nextHandler g) w ?r1"
        by (simp add: Let_def HeaderStrategy_SetLanguage_def)
      have read: "Get (Header ?r1) ''Accept-Language'' = ?l"
        by (simp add: Get_Set_value)
      from ns have ne: "?l \<noteq> ''''"
        and handled: "?l \<noteq> DefaultLanguage (config g) \<or> DefaultLanguageHandling (config g)"
        by (auto simp: skipCondition_def)
      have "bareTag ?l \<and>
          (?l \<in> set (Languages (config g)) \<or> ?l = DefaultLanguage (config g))"
        using getPreferredLanguage_cases[of g "Get (Header r) ''Accept-Language''"]
          handled assms(3)
        unfolding resolvedLanguage_def by metis
      then have "getPreferredLanguage g ?l = ?l"
        using getPreferredLanguage_bare by blast
      with read have same: "resolvedLanguage g ?r1 = ?l"
        by (simp add: resolvedLanguage_def)
      with ns have ns1: "\<not> skipCondition g ?r1"
        by (simp add: skipCondition_def)
      from read same ne have noop1: "noopCondition net HeaderStrategy g ?r1"
        by (simp add: noopCondition_def HeaderStrategy_GetLanguage_def)
      have "ServeHTTP net g w ?r1 = Next (nextHandler g) w ?r1"
        using ServeHTTP_noop[OF ns1 strat noop1] .
      with first show ?thesis by (simp add: ServeTwice_def)
    qed
  qed
  then show ?thesis by simp
qed

theorem header_strategy_idempotent_witness:
  "Get (Header (outRequest (ServeTwice noQuery
     \<lparr>nextHandler = (), config = \<lparr>Languages = [''en'', ''fr-CA'', ''de''], DefaultLanguage = ''en'',
        DefaultLanguageHandling = True, LanguageStrategy = ''header'',
        LanguageParam = ''lang'', RedirectAfterHandling = False\<rparr>\<rparr> []
     \<lparr>Method = ''GET'',
      URL = \<lparr>Scheme = '''', Host = '''', Path = ''/'', RawQuery = '''', Fragment = ''''\<rparr>,
      Header = [(''Accept-Language'', [''it, fr-CA;q=0.8, de;q=0.5''])]\<rparr>))) ''Accept-Language'' =
   ''fr-CA''"
  (is "Get (Header (outRequest (ServeTwice noQuery ?g [] ?r))) _ = _")
proof -
  have h1: "LanguageStrategy (config ?g) = StrategyHeader" by (simp add: StrategyHeader_def)
  have h2: "\<not> RedirectAfterHandling (config ?g)" by simp
  have "bareTag (DefaultLanguage (config ?g))" by code_simp
  then have h3: "bareTag (DefaultLanguage (config ?g)) \<or> \<not> DefaultLanguageHandling (config ?g)"
    by simp
  have once: "Get (Header (outRequest (ServeHTTP noQuery ?g [] ?r))) ''Accept-Language'' = ''fr-CA''"
    by code_simp
  show ?thesis
    using header_strategy_idempotent[OF h1 h2 h3, of noQuery "[]" ?r] once by simp
qed

end
